theory Spec2Isabelle
  imports Main "HOL-Library.AList"
begin

section \<open>Data model\<close>

subsection \<open>JSON values\<close>

text \<open>
  What \<^verbatim>\<open>encoding/json\<close> stores in an \<^verbatim>\<open>interface{}\<close>: nil, bool, a
  number, a string, \<^verbatim>\<open>[]interface{}\<close> or \<^verbatim>\<open>map[string]interface{}\<close>. Numbers are
  payload that \<^verbatim>\<open>Send\<close> never inspects; the integral ones are represented. A Go map is
  an association list with one entry per key, read with \<open>map_of\<close> and written with
  \<open>AList.update\<close> and \<open>AList.delete\<close>.
\<close>

datatype json =
    JNull
  | JBool bool
  | JNumber int
  | JString string
  | JArray "json list"
  | JObject "(string \<times> json) list"

type_synonym object = "(string \<times> json) list"

subsection \<open>The session\<close>

text \<open>
  The fields of \<^verbatim>\<open>http.Client\<close> that \<^verbatim>\<open>init\<close> fills in. The timeout is a
  \<^verbatim>\<open>time.Duration\<close>, a count of nanoseconds in an \<^verbatim>\<open>int64\<close>.
\<close>

record client =
  Timeout :: int
  InsecureSkipVerify :: bool

record PapiSession =
  User :: string
  Password :: string
  Endpoint :: string
  IgnoreCert :: bool
  SessionToken :: string
  CsrfToken :: string
  Client :: "client option"
  ConnTimeout :: int
  reauthCount :: int

definition defaultConnTimeout :: int where
  "defaultConnTimeout = 120"

definition defaultMaxReauthCount :: int where
  "defaultMaxReauthCount = 1"

definition sessionPath :: string where
  "sessionPath = ''session/1/session''"

definition maxCount :: int where
  "maxCount = 10000"

definition NewSession :: "string \<Rightarrow> PapiSession" where
  "NewSession endpoint =
     \<lparr>User = [], Password = [], Endpoint = endpoint, IgnoreCert = False,
      SessionToken = [], CsrfToken = [], Client = None,
      ConnTimeout = defaultConnTimeout, reauthCount = 0\<rparr>"

definition SetUser :: "string \<Rightarrow> PapiSession \<Rightarrow> string \<times> PapiSession" where
  "SetUser s ctx = (User ctx, ctx\<lparr>User := s\<rparr>)"

definition SetPassword :: "string \<Rightarrow> PapiSession \<Rightarrow> string \<times> PapiSession" where
  "SetPassword s ctx = (Password ctx, ctx\<lparr>Password := s\<rparr>)"

definition SetEndpoint :: "string \<Rightarrow> PapiSession \<Rightarrow> string \<times> PapiSession" where
  "SetEndpoint s ctx = (Endpoint ctx, ctx\<lparr>Endpoint := s\<rparr>)"

definition SetIgnoreCert :: "bool \<Rightarrow> PapiSession \<Rightarrow> bool \<times> PapiSession" where
  "SetIgnoreCert b ctx = (IgnoreCert ctx, ctx\<lparr>IgnoreCert := b\<rparr>)"

definition SetConnTimeout :: "int \<Rightarrow> PapiSession \<Rightarrow> int \<times> PapiSession" where
  "SetConnTimeout t ctx = (ConnTimeout ctx, ctx\<lparr>ConnTimeout := t\<rparr>)"

subsection \<open>Requests, responses and the network\<close>

text \<open>
  The dynamically typed arguments of \<^verbatim>\<open>GetURL\<close> and \<^verbatim>\<open>SendRaw\<close>: a path is a
  \<^verbatim>\<open>[]string\<close> or a \<^verbatim>\<open>string\<close>, a body is nil, \<^verbatim>\<open>[]byte\<close> or a
  \<^verbatim>\<open>string\<close>; a value of any other type makes the unchecked type assertion panic.
\<close>

datatype pathArg = Segments "string list" | Single string | NotAPath

datatype bodyArg = NilBody | Bytes string | Text string | NotABody

text \<open>
  The URL that \<^verbatim>\<open>GetURL\<close> builds, kept in parts: the endpoint it parsed, what it
  appended to the path, and the query mapping it encoded.
\<close>

record target =
  base :: string
  appended :: string
  params :: "(string \<times> string) list"

type_synonym header = "(string \<times> string list) list"

text \<open>
  What a request carries as its body: the marshalled \<^verbatim>\<open>sessionRequest\<close> (user name,
  password, services) of a login, or the caller's bytes.
\<close>

datatype payload = Login string string "string list" | Raw string

record request =
  Method :: string
  URL :: target
  Header :: header
  Payload :: "payload option"

text \<open>
  A response body as the code reads it: \<^verbatim>\<open>ioutil.ReadAll\<close> fails, or yields no bytes,
  or yields bytes that \<^verbatim>\<open>json.Unmarshal\<close> rejects for a
  \<^verbatim>\<open>map[string]interface{}\<close> (invalid JSON, or a document that is not an object),
  the document \<^verbatim>\<open>null\<close>, or an object with its members in textual order.
\<close>

datatype body = Unreadable | Empty | Malformed string | Null | Object object

record response =
  StatusCode :: int
  SetCookie :: "string list"
  Body :: body

text \<open>
  The network is the list of what the next calls of \<^verbatim>\<open>Client.Do\<close> will meet, a
  transport failure or a response, together with the log of the requests sent so far. Once
  the list is used up every further call fails in transport.
\<close>

datatype answer = Fails | Answers response

record net =
  pending :: "answer list"
  sent :: "request list"

definition Do :: "request \<Rightarrow> net \<Rightarrow> answer \<times> net" where
  "Do req n =
     (case pending n of
        [] \<Rightarrow> (Fails, n\<lparr>sent := sent n @ [req]\<rparr>)
      | a # rest \<Rightarrow> (a, \<lparr>pending = rest, sent = sent n @ [req]\<rparr>))"

text \<open>
  The two library calls whose verdict the code branches on but does not compute itself:
  whether \<^verbatim>\<open>url.Parse\<close> accepts the endpoint, and whether
  \<^verbatim>\<open>http.NewRequest\<close> accepts a method and URL.
\<close>

record platform =
  urlParses :: "string \<Rightarrow> bool"
  requestOk :: "string \<Rightarrow> target \<Rightarrow> bool"

subsection \<open>Errors and panics\<close>

datatype error =
    ConnectNewRequest
  | ConnectClientDo
  | ConnectNoSession body
  | ConnectNoSessionToken
  | ConnectNoCsrfToken
  | DisconnectNewRequest
  | DisconnectSessionDelete
  | SendRawRequest
  | ClientDo
  | SendSendRaw error
  | SendReadBody
  | SendNon2xx int body
  | SendUnmarshal
  | SendErrorsInJSON json

text \<open>
  A call either returns its Go result or panics. The session and the network as the call
  left them are returned beside it in both cases.
\<close>

datatype 'a run = Panics | Returns 'a

section \<open>Building requests\<close>

fun join :: "string list \<Rightarrow> string" where
  "join [] = []"
| "join [s] = s"
| "join (s # t # ss) = s @ ''/'' @ join (t # ss)"

text \<open>
  \<^verbatim>\<open>GetURL\<close> drops the error of \<^verbatim>\<open>url.Parse\<close> and dereferences the result, so an
  endpoint that does not parse is a nil-pointer panic.
\<close>

definition GetURL :: "platform \<Rightarrow> PapiSession \<Rightarrow> pathArg \<Rightarrow> (string \<times> string) list \<Rightarrow> target run" where
  "GetURL P ctx path query =
     (if \<not> urlParses P (Endpoint ctx) then Panics
      else case path of
             Segments ss \<Rightarrow> Returns \<lparr>base = Endpoint ctx, appended = join ss, params = query\<rparr>
           | Single s \<Rightarrow> Returns \<lparr>base = Endpoint ctx, appended = s, params = query\<rparr>
           | NotAPath \<Rightarrow> Panics)"

text \<open>
  \<^verbatim>\<open>time.Duration(ctx.ConnTimeout) * time.Second\<close>: the conversion to \<^verbatim>\<open>int64\<close> and
  the product both wrap around.
\<close>

definition int64 :: "int \<Rightarrow> int" where
  "int64 x = (x + 2 ^ 63) mod 2 ^ 64 - 2 ^ 63"

definition Second :: int where
  "Second = 1000000000"

definition Duration :: "int \<Rightarrow> int" where
  "Duration seconds = int64 (int64 seconds * Second)"

definition init :: "PapiSession \<Rightarrow> PapiSession" where
  "init ctx =
     (if IgnoreCert ctx
      then ctx\<lparr>Client := Some \<lparr>Timeout = Duration (ConnTimeout ctx), InsecureSkipVerify = True\<rparr>\<rparr>
      else ctx\<lparr>Client := Some \<lparr>Timeout = Duration (ConnTimeout ctx), InsecureSkipVerify = False\<rparr>\<rparr>)"

subsection \<open>Header assembly\<close>

text \<open>
  \<^verbatim>\<open>Header.Add\<close> files a value under the canonical form of the name: if every byte
  is a header token byte, the first letter and each letter after a hyphen in upper case and
  the other letters in lower case; a name with any other byte is left as it is.
\<close>

definition validHeaderFieldByte :: "char \<Rightarrow> bool" where
  "validHeaderFieldByte c \<longleftrightarrow>
     (let n = (of_char c :: nat) in
      (48 \<le> n \<and> n \<le> 57) \<or> (65 \<le> n \<and> n \<le> 90) \<or> (97 \<le> n \<and> n \<le> 122)
      \<or> c \<in> set ''!#$%&*+-.^_`|~'' \<or> n = 39)"

fun canonicalise :: "bool \<Rightarrow> string \<Rightarrow> string" where
  "canonicalise upper [] = []"
| "canonicalise upper (c # cs) =
     (let n = (of_char c :: nat);
          c' = (if upper \<and> 97 \<le> n \<and> n \<le> 122 then char_of (n - 32)
                else if \<not> upper \<and> 65 \<le> n \<and> n \<le> 90 then char_of (n + 32)
                else c)
      in c' # canonicalise (c' = CHR ''-'') cs)"

definition CanonicalMIMEHeaderKey :: "string \<Rightarrow> string" where
  "CanonicalMIMEHeaderKey s = (if list_all validHeaderFieldByte s then canonicalise True s else s)"

definition Add :: "string \<Rightarrow> string \<Rightarrow> header \<Rightarrow> header" where
  "Add key v h =
     (let k = CanonicalMIMEHeaderKey key
      in AList.update k (case map_of h k of None \<Rightarrow> [v] | Some vs \<Rightarrow> vs @ [v]) h)"

definition defaultHeaders :: "PapiSession \<Rightarrow> (string \<times> string) list" where
  "defaultHeaders ctx =
     [(''Accept'', ''application/json''),
      (''Cookie'', ''isisessid='' @ SessionToken ctx),
      (''Content-Type'', ''application/json''),
      (''Referer'', Endpoint ctx),
      (''X-CSRF-Token'', CsrfToken ctx)]"

text \<open>
  \<^verbatim>\<open>setHeaders\<close> takes the header of the request, the session and the caller's headers.
  Both loops range over Go maps, whose keys are distinct; the model visits them in list order.
\<close>

definition setCaller :: "(string \<times> string) list \<Rightarrow> header \<Rightarrow> header" where
  "setCaller headers h = fold (\<lambda>(k, v) h. AList.update k [v] h) headers h"

definition addDefault :: "string \<times> string \<Rightarrow> header \<Rightarrow> header" where
  "addDefault kv h = (case kv of (k, v) \<Rightarrow> if map_of h k = None then Add k v h else h)"

definition setHeaders :: "header \<Rightarrow> PapiSession \<Rightarrow> (string \<times> string) list \<Rightarrow> header" where
  "setHeaders h ctx headers = fold addDefault (defaultHeaders ctx) (setCaller headers h)"

section \<open>Session manager\<close>

subsection \<open>Cookie patterns\<close>

text \<open>
  \<^verbatim>\<open>FindStringSubmatch\<close> for a pattern \<^verbatim>\<open>.*key([^;]+).*\<close>, returning the group.
  \<open>here\<close> matches the key and the group at the head of the string; \<open>anchored\<close> lets the
  greedy \<^verbatim>\<open>.*\<close> run first, which never crosses a line feed, and so prefers the last
  position on the line; \<open>FindStringSubmatch\<close> takes the leftmost start that matches.
\<close>

definition here :: "string \<Rightarrow> string \<Rightarrow> string option" where
  "here key s =
     (let grp = takeWhile (\<lambda>c. c \<noteq> CHR '';'') (drop (length key) s)
      in if take (length key) s = key \<and> grp \<noteq> [] then Some grp else None)"

fun anchored :: "string \<Rightarrow> string \<Rightarrow> string option" where
  "anchored key [] = here key []"
| "anchored key (c # cs) =
     (case (if c = CHR 0x0A then None else anchored key cs) of
        Some g \<Rightarrow> Some g
      | None \<Rightarrow> here key (c # cs))"

fun FindStringSubmatch :: "string \<Rightarrow> string \<Rightarrow> string option" where
  "FindStringSubmatch key [] = anchored key []"
| "FindStringSubmatch key (c # cs) =
     (case anchored key (c # cs) of
        Some g \<Rightarrow> Some g
      | None \<Rightarrow> FindStringSubmatch key cs)"

definition rexSession :: "string \<Rightarrow> string option" where
  "rexSession = FindStringSubmatch ''isisessid=''"

definition rexCsrf :: "string \<Rightarrow> string option" where
  "rexCsrf = FindStringSubmatch ''isicsrf=''"

subsection \<open>Disconnect, Connect, Reconnect\<close>

definition Disconnect :: "platform \<Rightarrow> PapiSession \<Rightarrow> net \<Rightarrow> error option run \<times> PapiSession \<times> net" where
  "Disconnect P ctx n =
     (case Client ctx of
        None \<Rightarrow> (Returns None, ctx, n)
      | Some c \<Rightarrow>
          (case GetURL P ctx (Single sessionPath) [] of
             Panics \<Rightarrow> (Panics, ctx, n)
           | Returns u \<Rightarrow>
               if \<not> requestOk P ''DELETE'' u then (Returns (Some DisconnectNewRequest), ctx, n)
               else
                 (case Do \<lparr>Method = ''DELETE'', URL = u, Header = setHeaders [] ctx [],
                           Payload = None\<rparr> n of
                    (a, n') \<Rightarrow>
                      (Returns (case a of Fails \<Rightarrow> Some DisconnectSessionDelete
                                | Answers resp \<Rightarrow> None),
                       ctx\<lparr>Client := None, SessionToken := [], CsrfToken := []\<rparr>, n'))))"

text \<open>The loop of \<^verbatim>\<open>Connect\<close> over the \<^verbatim>\<open>Set-Cookie\<close> headers of the response.\<close>

fun scanCookies :: "string list \<Rightarrow> PapiSession \<Rightarrow> PapiSession" where
  "scanCookies [] ctx = ctx"
| "scanCookies (c # cs) ctx =
     (case rexSession c of
        Some m \<Rightarrow> scanCookies cs (ctx\<lparr>SessionToken := m\<rparr>)
      | None \<Rightarrow>
          (case rexCsrf c of
             Some m \<Rightarrow> scanCookies cs (ctx\<lparr>CsrfToken := m\<rparr>)
           | None \<Rightarrow> scanCookies cs ctx))"

definition sessionRequest :: "PapiSession \<Rightarrow> payload" where
  "sessionRequest ctx = Login (User ctx) (Password ctx) [''platform'', ''namespace'']"

definition Connect :: "platform \<Rightarrow> PapiSession \<Rightarrow> net \<Rightarrow> error option run \<times> PapiSession \<times> net" where
  "Connect P ctx0 n0 =
     (case Disconnect P ctx0 n0 of
        (Panics, ctx1, n1) \<Rightarrow> (Panics, ctx1, n1)
      | (Returns ignored, ctx1, n1) \<Rightarrow>
          (let ctx = (if Client ctx1 = None then init ctx1 else ctx1) in
           case GetURL P ctx (Single sessionPath) [] of
             Panics \<Rightarrow> (Panics, ctx, n1)
           | Returns u \<Rightarrow>
               if \<not> requestOk P ''POST'' u then (Returns (Some ConnectNewRequest), ctx, n1)
               else
                 (case Do \<lparr>Method = ''POST'', URL = u,
                           Header = [(''Content-Type'', [''application/json'']),
                                     (''Accept'', [''application/json''])],
                           Payload = Some (sessionRequest ctx)\<rparr> n1 of
                    (Fails, n) \<Rightarrow> (Returns (Some ConnectClientDo), ctx, n)
                  | (Answers resp, n) \<Rightarrow>
                      if StatusCode resp < 200 \<or> StatusCode resp > 299
                      then (Returns (Some (ConnectNoSession (Body resp))), ctx, n)
                      else
                        (let ctx' = scanCookies (SetCookie resp) ctx in
                         if SessionToken ctx' = [] then (Returns (Some ConnectNoSessionToken), ctx', n)
                         else if CsrfToken ctx' = [] then (Returns (Some ConnectNoCsrfToken), ctx', n)
                         else (Returns None, ctx'\<lparr>reauthCount := 0\<rparr>, n)))))"

definition Reconnect :: "platform \<Rightarrow> PapiSession \<Rightarrow> net \<Rightarrow> error option run \<times> PapiSession \<times> net" where
  "Reconnect P ctx n =
     (case Disconnect P ctx n of
        (Panics, ctx1, n1) \<Rightarrow> (Panics, ctx1, n1)
      | (Returns ignored, ctx1, n1) \<Rightarrow> Connect P ctx1 n1)"

section \<open>Pagination aggregator\<close>

definition SendRaw ::
  "platform \<Rightarrow> string \<Rightarrow> pathArg \<Rightarrow> (string \<times> string) list \<Rightarrow> bodyArg \<Rightarrow>
   (string \<times> string) list \<Rightarrow> PapiSession \<Rightarrow> net \<Rightarrow> (error + response) run \<times> PapiSession \<times> net" where
  "SendRaw P method path query body headers ctx n =
     (case (case body of
              NilBody \<Rightarrow> Returns None
            | Bytes b \<Rightarrow> Returns (Some (Raw b))
            | Text s \<Rightarrow> Returns (Some (Raw s))
            | NotABody \<Rightarrow> Panics) of
        Panics \<Rightarrow> (Panics, ctx, n)
      | Returns reqBody \<Rightarrow>
          (case GetURL P ctx path query of
             Panics \<Rightarrow> (Panics, ctx, n)
           | Returns u \<Rightarrow>
               if \<not> requestOk P method u then (Returns (Inl SendRawRequest), ctx, n)
               else
                 (case Client ctx of
                    None \<Rightarrow> (Panics, ctx, n)
                  | Some c \<Rightarrow>
                      (case Do \<lparr>Method = method, URL = u, Header = setHeaders [] ctx headers,
                                Payload = reqBody\<rparr> n of
                         (Fails, n') \<Rightarrow> (Returns (Inl ClientDo), ctx, n')
                       | (Answers resp, n') \<Rightarrow> (Returns (Inr resp), ctx, n')))))"

text \<open>
  \<^verbatim>\<open>json.Unmarshal(rawBody, &jsonTemp)\<close>: an object is stored member by member into the
  map that \<^verbatim>\<open>jsonTemp\<close> already holds (the variable is declared once, outside the loop,
  and a map that is not nil is reused with its entries); \<^verbatim>\<open>null\<close> sets the map to
  nil; anything else is an error.
\<close>

definition Unmarshal :: "body \<Rightarrow> object \<Rightarrow> object option" where
  "Unmarshal b jsonTemp =
     (case b of
        Object members \<Rightarrow> Some (fold (\<lambda>(k, v) m. AList.update k v m) members jsonTemp)
      | Null \<Rightarrow> Some []
      | _ \<Rightarrow> None)"

text \<open>
  The loop that combines \<^verbatim>\<open>jsonTemp\<close> with \<^verbatim>\<open>jsonBody\<close>. When the accumulated
  value is an array, the page's value is asserted to be one, unchecked.
\<close>

fun combine :: "object \<Rightarrow> object \<Rightarrow> object run" where
  "combine [] jsonBody = Returns jsonBody"
| "combine ((key, dval) # rest) jsonBody =
     (case map_of jsonBody key of
        Some (JArray sval) \<Rightarrow>
          (case dval of
             JArray vs \<Rightarrow>
               combine rest (AList.update key (JArray (fold (\<lambda>v acc. acc @ [v]) vs sval)) jsonBody)
           | _ \<Rightarrow> Panics)
      | Some other \<Rightarrow> combine rest (AList.update key dval jsonBody)
      | None \<Rightarrow> combine rest (AList.update key dval jsonBody))"

text \<open>The variables of the loop of \<^verbatim>\<open>Send\<close>.\<close>

record loop =
  query :: "(string \<times> string) list"
  resumeKey :: string
  jsonBody :: object
  jsonTemp :: object
  resume :: bool
  count :: int

definition start :: "(string \<times> string) list \<Rightarrow> loop" where
  "start q = \<lparr>query = q, resumeKey = [], jsonBody = [], jsonTemp = [], resume = True, count = 0\<rparr>"

text \<open>
  The second half of an iteration, from \<^verbatim>\<open>json.Unmarshal\<close> to the end of the body:
  decode the page, read its \<^verbatim>\<open>resume\<close> field, check the accumulated result for an
  \<^verbatim>\<open>errors\<close> key, drop the three envelope fields and combine.
\<close>

definition Send_page :: "body \<Rightarrow> loop \<Rightarrow> (error + loop) run" where
  "Send_page b st =
     (case Unmarshal b (jsonTemp st) of
        None \<Rightarrow> Returns (Inl SendUnmarshal)
      | Some decoded \<Rightarrow>
          (case (case map_of decoded ''resume'' of
                   None \<Rightarrow> Returns (False, resumeKey st)
                 | Some JNull \<Rightarrow> Returns (False, resumeKey st)
                 | Some (JString s) \<Rightarrow> Returns (True, s)
                 | Some other \<Rightarrow> Panics) of
             Panics \<Rightarrow> Panics
           | Returns (again, rk) \<Rightarrow>
               (case map_of (jsonBody st) ''errors'' of
                  Some ekey \<Rightarrow> Returns (Inl (SendErrorsInJSON ekey))
                | None \<Rightarrow>
                    (let page = AList.delete ''total'' (AList.delete ''resume''
                                  (AList.delete ''errors'' decoded))
                     in case combine page (jsonBody st) of
                          Panics \<Rightarrow> Panics
                        | Returns merged \<Rightarrow>
                            Returns (Inr (st\<lparr>resumeKey := rk, jsonBody := merged,
                                             jsonTemp := page, resume := again\<rparr>))))))"

text \<open>
  The query an iteration sends: once a resume key is held, the caller's parameters are
  replaced by it.
\<close>

definition continuation :: "loop \<Rightarrow> (string \<times> string) list" where
  "continuation st = (if resumeKey st \<noteq> [] then [(''resume'', resumeKey st)] else query st)"

function Send_loop ::
  "platform \<Rightarrow> string \<Rightarrow> pathArg \<Rightarrow> bodyArg \<Rightarrow> (string \<times> string) list \<Rightarrow> loop \<Rightarrow>
   PapiSession \<Rightarrow> net \<Rightarrow> (object option \<times> error option) run \<times> PapiSession \<times> net" where
  "Send_loop P method path body headers st ctx n =
     (if \<not> (resume st \<and> count st < maxCount) then (Returns (Some (jsonBody st), None), ctx, n)
      else
        (let q = continuation st in
         case SendRaw P method path q body headers ctx n of
           (Panics, ctx1, n1) \<Rightarrow> (Panics, ctx1, n1)
         | (Returns (Inl err), ctx1, n1) \<Rightarrow> (Returns (None, Some (SendSendRaw err)), ctx1, n1)
         | (Returns (Inr resp), ctx1, n1) \<Rightarrow>
             if Body resp = Unreadable then (Returns (None, Some SendReadBody), ctx1, n1)
             else if StatusCode resp < 200 \<or> StatusCode resp > 299 then
               (if StatusCode resp = 401 \<and> \<not> reauthCount ctx1 \<ge> defaultMaxReauthCount then
                  (case Reconnect P (ctx1\<lparr>reauthCount := reauthCount ctx1 + 1\<rparr>) n1 of
                     (Panics, ctx2, n2) \<Rightarrow> (Panics, ctx2, n2)
                   | (Returns ignored, ctx2, n2) \<Rightarrow>
                       Send_loop P method path body headers (start q) ctx2 n2)
                else (Returns (None, Some (SendNon2xx (StatusCode resp) (Body resp))), ctx1, n1))
             else if Body resp = Empty then (Returns (None, None), ctx1, n1)
             else
               (case Send_page (Body resp) (st\<lparr>query := q\<rparr>) of
                  Panics \<Rightarrow> (Panics, ctx1, n1)
                | Returns (Inl err) \<Rightarrow> (Returns (None, Some err), ctx1, n1)
                | Returns (Inr st') \<Rightarrow>
                    Send_loop P method path body headers (st'\<lparr>count := count st' + 1\<rparr>) ctx1 n1)))"
  by pat_completeness auto

definition Send ::
  "platform \<Rightarrow> string \<Rightarrow> pathArg \<Rightarrow> (string \<times> string) list \<Rightarrow> bodyArg \<Rightarrow>
   (string \<times> string) list \<Rightarrow> PapiSession \<Rightarrow> net \<Rightarrow>
   (object option \<times> error option) run \<times> PapiSession \<times> net" where
  "Send P method path q body headers ctx n = Send_loop P method path body headers (start q) ctx n"

section \<open>A cluster to run the examples against\<close>

text \<open>
  The endpoint of the examples parses and the requests built on it are accepted;
  \<^verbatim>\<open>url.Parse\<close> rejects the endpoint \<^verbatim>\<open>:\<close> (missing protocol scheme).
\<close>

definition cluster :: string where
  "cluster = ''https://cluster:8080''"

definition golib :: platform where
  "golib = \<lparr>urlParses = (\<lambda>e. e = cluster), requestOk = (\<lambda>m u. base u = cluster)\<rparr>"

text \<open>A session as a successful \<^verbatim>\<open>Connect\<close> leaves it.\<close>

definition connected :: PapiSession where
  "connected =
     \<lparr>User = ''admin'', Password = ''secret'', Endpoint = cluster, IgnoreCert = False,
      SessionToken = ''s1'', CsrfToken = ''c1'',
      Client = Some \<lparr>Timeout = 120000000000, InsecureSkipVerify = False\<rparr>,
      ConnTimeout = 120, reauthCount = 0\<rparr>"

definition page :: "object \<Rightarrow> answer" where
  "page members = Answers \<lparr>StatusCode = 200, SetCookie = [], Body = Object members\<rparr>"

definition status :: "int \<Rightarrow> answer" where
  "status code = Answers \<lparr>StatusCode = code, SetCookie = [], Body = Empty\<rparr>"

definition login :: "string list \<Rightarrow> answer" where
  "login cookies = Answers \<lparr>StatusCode = 201, SetCookie = cookies, Body = Empty\<rparr>"

definition cookies :: "string list" where
  "cookies = [''isisessid=s2; path=/; HttpOnly'', ''isicsrf=c2; path=/'']"

definition script :: "answer list \<Rightarrow> net" where
  "script answers = \<lparr>pending = answers, sent = []\<rparr>"

text \<open>
  A cluster that answers 401, lets the session be closed and accepts the login, \<open>k\<close> times
  over; and the session as such a login leaves it.
\<close>

definition rounds :: "nat \<Rightarrow> answer list" where
  "rounds k = concat (replicate k [status 401, status 204, login cookies])"

definition relogin :: "PapiSession \<Rightarrow> PapiSession" where
  "relogin ctx =
     ctx\<lparr>SessionToken := ''s2'', CsrfToken := ''c2'',
         Client := Some \<lparr>Timeout = Duration (ConnTimeout ctx),
                          InsecureSkipVerify = IgnoreCert ctx\<rparr>,
         reauthCount := 0\<rparr>"

section \<open>Termination of the loop\<close>

lemma Do_pending: "Do req n = (a, n') \<Longrightarrow> length (pending n') \<le> length (pending n)"
  by (auto simp: Do_def split: list.splits)

lemma Do_answers: "Do req n = (Answers resp, n') \<Longrightarrow> length (pending n') < length (pending n)"
  by (auto simp: Do_def split: list.splits)

lemma Disconnect_pending:
  "Disconnect P ctx n = (r, ctx', n') \<Longrightarrow> length (pending n') \<le> length (pending n)"
  by (auto simp: Disconnect_def split: option.splits run.splits if_splits prod.splits
           dest: Do_pending)

lemma Connect_pending:
  "Connect P ctx n = (r, ctx', n') \<Longrightarrow> length (pending n') \<le> length (pending n)"
  unfolding Connect_def
  by (auto simp: Let_def split: option.splits run.splits if_splits prod.splits answer.splits
           dest!: Do_pending Disconnect_pending)

lemma Reconnect_pending:
  "Reconnect P ctx n = (r, ctx', n') \<Longrightarrow> length (pending n') \<le> length (pending n)"
  unfolding Reconnect_def
  by (auto split: run.splits prod.splits dest!: Connect_pending Disconnect_pending)

lemma SendRaw_pending:
  "SendRaw P method path q body headers ctx n = (Returns (Inr resp), ctx', n')
   \<Longrightarrow> length (pending n') < length (pending n)"
  unfolding SendRaw_def
  by (auto split: run.splits option.splits if_splits prod.splits answer.splits bodyArg.splits
           dest!: Do_answers)

termination Send_loop
proof (relation "measure (\<lambda>(P, method, path, body, headers, st, ctx, n). length (pending n))")
qed (auto dest!: SendRaw_pending [OF sym] Reconnect_pending [OF sym])

declare Send_loop.simps [simp del]

section \<open>An empty body ends the call\<close>

text \<open>
  C7. In any iteration of the loop of \<^verbatim>\<open>Send\<close>, whatever has been accumulated so far:
  when the request is answered with a status in 200..299 and a body of no bytes, the call
  returns at once with a nil map and a nil error.
\<close>

theorem Send_empty_body:
  assumes "resume st" and "count st < maxCount"
    and "SendRaw P method path (continuation st) body headers ctx n
         = (Returns (Inr resp), ctx1, n1)"
    and "200 \<le> StatusCode resp" and "StatusCode resp \<le> 299"
    and "Body resp = Empty"
  shows "Send_loop P method path body headers st ctx n = (Returns (None, None), ctx1, n1)"
  using assms by (subst Send_loop.simps) (simp add: Let_def)

text \<open>
  The second page of a listing comes back with no body: the items of the first page are
  dropped and the caller gets nil, nil.
\<close>

theorem Send_empty_body_witness:
  "fst (Send golib ''GET'' (Single ''items'') [] NilBody [] connected
          (script [page [(''items'', JArray [JNumber 1]), (''resume'', JString ''abc'')],
                   status 200]))
   = Returns (None, None)"
proof -
  let ?st = "\<lparr>query = [], resumeKey = ''abc'', jsonBody = [(''items'', JArray [JNumber 1])],
              jsonTemp = [(''items'', JArray [JNumber 1])], resume = True, count = 1\<rparr>"
  let ?req1 = "\<lparr>Method = ''GET'', URL = \<lparr>base = cluster, appended = ''items'', params = []\<rparr>,
                 Header = setHeaders [] connected [], Payload = None\<rparr>"
  let ?req2 = "\<lparr>Method = ''GET'',
                 URL = \<lparr>base = cluster, appended = ''items'', params = [(''resume'', ''abc'')]\<rparr>,
                 Header = setHeaders [] connected [], Payload = None\<rparr>"
  let ?n1 = "\<lparr>pending = [status 200], sent = [?req1]\<rparr>"
  let ?n2 = "\<lparr>pending = [], sent = [?req1, ?req2]\<rparr>"
  have first: "Send golib ''GET'' (Single ''items'') [] NilBody [] connected
                 (script [page [(''items'', JArray [JNumber 1]), (''resume'', JString ''abc'')],
                          status 200])
               = Send_loop golib ''GET'' (Single ''items'') NilBody [] ?st connected ?n1"
    unfolding Send_def
    by (subst Send_loop.simps)
       (simp add: start_def maxCount_def SendRaw_def GetURL_def golib_def connected_def cluster_def
          Do_def script_def page_def Send_page_def Unmarshal_def Let_def continuation_def)
  have raw: "SendRaw golib ''GET'' (Single ''items'') (continuation ?st) NilBody [] connected ?n1
             = (Returns (Inr \<lparr>StatusCode = 200, SetCookie = [], Body = Empty\<rparr>), connected, ?n2)"
    by (simp add: SendRaw_def GetURL_def golib_def connected_def cluster_def Do_def status_def
          continuation_def)
  have "Send_loop golib ''GET'' (Single ''items'') NilBody [] ?st connected ?n1
        = (Returns (None, None), connected, ?n2)"
    by (rule Send_empty_body [OF _ _ raw]) (simp_all add: maxCount_def)
  with first show ?thesis by simp
qed

section \<open>Header assembly\<close>

lemma canon_defaults:
  "CanonicalMIMEHeaderKey ''Accept'' = ''Accept''"
  "CanonicalMIMEHeaderKey ''Cookie'' = ''Cookie''"
  "CanonicalMIMEHeaderKey ''Content-Type'' = ''Content-Type''"
  "CanonicalMIMEHeaderKey ''Referer'' = ''Referer''"
  "CanonicalMIMEHeaderKey ''X-CSRF-Token'' = ''X-Csrf-Token''"
  by code_simp+

lemma setCaller_map_of:
  "map_of (setCaller headers h) k =
     (case map_of (rev headers) k of None \<Rightarrow> map_of h k | Some v \<Rightarrow> Some [v])"
  unfolding setCaller_def
  by (induction headers arbitrary: h) (auto simp: update_conv' split: option.splits)

lemma map_of_Add:
  "map_of (Add key v h) k =
     (if k = CanonicalMIMEHeaderKey key
      then Some ((case map_of h k of None \<Rightarrow> [] | Some vs \<Rightarrow> vs) @ [v])
      else map_of h k)"
  by (auto simp: Add_def Let_def update_conv' split: option.splits)

lemma map_of_addDefault:
  "map_of (addDefault (key, v) h) k =
     (if map_of h key = None \<and> k = CanonicalMIMEHeaderKey key
      then Some ((case map_of h k of None \<Rightarrow> [] | Some vs \<Rightarrow> vs) @ [v])
      else map_of h k)"
  by (simp add: addDefault_def map_of_Add)

text \<open>
  C10. \<^verbatim>\<open>setHeaders\<close> first stores every caller header under its exact name with its
  single value; then \<^verbatim>\<open>Accept: application/json\<close>, the cookie built from the session
  token, \<^verbatim>\<open>Content-Type: application/json\<close>, \<^verbatim>\<open>Referer\<close> with the endpoint and
  the anti-forgery token are each added only when their exact name (\<^verbatim>\<open>X-CSRF-Token\<close> for
  the last) is not yet a key of the header. \<^verbatim>\<open>Header.Add\<close> files the token under
  \<^verbatim>\<open>X-Csrf-Token\<close>. No other name is touched.
\<close>

theorem setHeaders_policy:
  "(distinct (map fst headers) \<longrightarrow>
      (\<forall>(k, v) \<in> set headers. map_of (setCaller headers h) k = Some [v]))
   \<and> (\<forall>k. k \<notin> fst ` set headers \<longrightarrow> map_of (setCaller headers h) k = map_of h k)
   \<and> map_of (setHeaders h ctx headers) ''Accept'' =
         (case map_of (setCaller headers h) ''Accept'' of
            None \<Rightarrow> Some [''application/json''] | Some vs \<Rightarrow> Some vs)
   \<and> map_of (setHeaders h ctx headers) ''Cookie'' =
         (case map_of (setCaller headers h) ''Cookie'' of
            None \<Rightarrow> Some [''isisessid='' @ SessionToken ctx] | Some vs \<Rightarrow> Some vs)
   \<and> map_of (setHeaders h ctx headers) ''Content-Type'' =
         (case map_of (setCaller headers h) ''Content-Type'' of
            None \<Rightarrow> Some [''application/json''] | Some vs \<Rightarrow> Some vs)
   \<and> map_of (setHeaders h ctx headers) ''Referer'' =
         (case map_of (setCaller headers h) ''Referer'' of
            None \<Rightarrow> Some [Endpoint ctx] | Some vs \<Rightarrow> Some vs)
   \<and> map_of (setHeaders h ctx headers) ''X-CSRF-Token'' =
         map_of (setCaller headers h) ''X-CSRF-Token''
   \<and> map_of (setHeaders h ctx headers) ''X-Csrf-Token'' =
         (case map_of (setCaller headers h) ''X-CSRF-Token'' of
            None \<Rightarrow>
              Some ((case map_of (setCaller headers h) ''X-Csrf-Token'' of
                       None \<Rightarrow> [] | Some vs \<Rightarrow> vs) @ [CsrfToken ctx])
          | Some vs \<Rightarrow> map_of (setCaller headers h) ''X-Csrf-Token'')
   \<and> (\<forall>k. k \<notin> {''Accept'', ''Cookie'', ''Content-Type'', ''Referer'', ''X-Csrf-Token''}
          \<longrightarrow> map_of (setHeaders h ctx headers) k = map_of (setCaller headers h) k)"
proof -
  have caller: "distinct (map fst headers) \<longrightarrow>
      (\<forall>(k, v) \<in> set headers. map_of (setCaller headers h) k = Some [v])"
  proof (intro impI ballI, clarify)
    fix k v
    assume "distinct (map fst headers)" and "(k, v) \<in> set headers"
    then have "map_of (rev headers) k = Some v"
      by (intro map_of_is_SomeI) (simp_all add: rev_map [symmetric])
    then show "map_of (setCaller headers h) k = Some [v]"
      by (simp add: setCaller_map_of)
  qed
  have other: "\<forall>k. k \<notin> fst ` set headers \<longrightarrow> map_of (setCaller headers h) k = map_of h k"
  proof (intro allI impI)
    fix k
    assume "k \<notin> fst ` set headers"
    then have "map_of (rev headers) k = None"
      by (simp add: map_of_eq_None_iff)
    then show "map_of (setCaller headers h) k = map_of h k"
      by (simp add: setCaller_map_of)
  qed
  note defs = setHeaders_def defaultHeaders_def map_of_addDefault canon_defaults
  have accept: "map_of (setHeaders h ctx headers) ''Accept'' =
         (case map_of (setCaller headers h) ''Accept'' of
            None \<Rightarrow> Some [''application/json''] | Some vs \<Rightarrow> Some vs)"
    by (simp add: defs split: option.splits)
  have cookie: "map_of (setHeaders h ctx headers) ''Cookie'' =
         (case map_of (setCaller headers h) ''Cookie'' of
            None \<Rightarrow> Some [''isisessid='' @ SessionToken ctx] | Some vs \<Rightarrow> Some vs)"
    by (simp add: defs split: option.splits)
  have ctype: "map_of (setHeaders h ctx headers) ''Content-Type'' =
         (case map_of (setCaller headers h) ''Content-Type'' of
            None \<Rightarrow> Some [''application/json''] | Some vs \<Rightarrow> Some vs)"
    by (simp add: defs split: option.splits)
  have referer: "map_of (setHeaders h ctx headers) ''Referer'' =
         (case map_of (setCaller headers h) ''Referer'' of
            None \<Rightarrow> Some [Endpoint ctx] | Some vs \<Rightarrow> Some vs)"
    by (simp add: defs split: option.splits)
  have exact: "map_of (setHeaders h ctx headers) ''X-CSRF-Token'' =
         map_of (setCaller headers h) ''X-CSRF-Token''"
    by (simp add: defs)
  have csrf: "map_of (setHeaders h ctx headers) ''X-Csrf-Token'' =
         (case map_of (setCaller headers h) ''X-CSRF-Token'' of
            None \<Rightarrow>
              Some ((case map_of (setCaller headers h) ''X-Csrf-Token'' of
                       None \<Rightarrow> [] | Some vs \<Rightarrow> vs) @ [CsrfToken ctx])
          | Some vs \<Rightarrow> map_of (setCaller headers h) ''X-Csrf-Token'')"
    by (simp add: defs split: option.splits)
  have rest: "\<forall>k. k \<notin> {''Accept'', ''Cookie'', ''Content-Type'', ''Referer'', ''X-Csrf-Token''}
          \<longrightarrow> map_of (setHeaders h ctx headers) k = map_of (setCaller headers h) k"
    by (simp add: defs)
  from caller other accept cookie ctype referer exact csrf rest show ?thesis
    by (intro conjI)
qed

text \<open>
  The caller sends \<^verbatim>\<open>Accept: text/plain\<close>: it stays, and the other four are filled in.
\<close>

theorem setHeaders_policy_witness:
  "distinct (map fst [(''Accept'', ''text/plain'')])
   \<and> setHeaders [] connected [(''Accept'', ''text/plain'')] =
       [(''Accept'', [''text/plain'']), (''Cookie'', [''isisessid=s1'']),
        (''Content-Type'', [''application/json'']), (''Referer'', [cluster]),
        (''X-Csrf-Token'', [''c1''])]
   \<and> map_of (setHeaders [] connected [(''Accept'', ''text/plain'')]) ''Accept'' = Some [''text/plain'']
   \<and> map_of (setHeaders [] connected [(''Accept'', ''text/plain'')]) ''Cookie'' = Some [''isisessid=s1'']
   \<and> map_of (setHeaders [] connected [(''Accept'', ''text/plain'')]) ''X-Csrf-Token'' = Some [''c1'']"
  using setHeaders_policy [of "[(''Accept'', ''text/plain'')]" "[]" connected]
  by (simp add: setHeaders_def setCaller_def defaultHeaders_def addDefault_def Add_def
        canon_defaults connected_def)

section \<open>One iteration of the loop\<close>

lemma Send_loop_exit:
  "\<not> (resume st \<and> count st < maxCount) \<Longrightarrow>
   Send_loop P method path body headers st ctx n = (Returns (Some (jsonBody st), None), ctx, n)"
  by (subst Send_loop.simps) simp

lemma Send_loop_panic:
  "resume st \<Longrightarrow> count st < maxCount \<Longrightarrow>
   SendRaw P method path (continuation st) body headers ctx n = (Panics, ctx1, n1) \<Longrightarrow>
   Send_loop P method path body headers st ctx n = (Panics, ctx1, n1)"
  by (subst Send_loop.simps) (simp add: Let_def)

lemma Send_loop_error:
  "resume st \<Longrightarrow> count st < maxCount \<Longrightarrow>
   SendRaw P method path (continuation st) body headers ctx n = (Returns (Inl err), ctx1, n1) \<Longrightarrow>
   Send_loop P method path body headers st ctx n = (Returns (None, Some (SendSendRaw err)), ctx1, n1)"
  by (subst Send_loop.simps) (simp add: Let_def)

lemma Send_loop_response:
  "resume st \<Longrightarrow> count st < maxCount \<Longrightarrow>
   SendRaw P method path (continuation st) body headers ctx n = (Returns (Inr resp), ctx1, n1) \<Longrightarrow>
   Send_loop P method path body headers st ctx n =
     (if Body resp = Unreadable then (Returns (None, Some SendReadBody), ctx1, n1)
      else if StatusCode resp < 200 \<or> StatusCode resp > 299 then
        (if StatusCode resp = 401 \<and> \<not> reauthCount ctx1 \<ge> defaultMaxReauthCount then
           (case Reconnect P (ctx1\<lparr>reauthCount := reauthCount ctx1 + 1\<rparr>) n1 of
              (Panics, ctx2, n2) \<Rightarrow> (Panics, ctx2, n2)
            | (Returns ignored, ctx2, n2) \<Rightarrow>
                Send_loop P method path body headers (start (continuation st)) ctx2 n2)
         else (Returns (None, Some (SendNon2xx (StatusCode resp) (Body resp))), ctx1, n1))
      else if Body resp = Empty then (Returns (None, None), ctx1, n1)
      else
        (case Send_page (Body resp) (st\<lparr>query := continuation st\<rparr>) of
           Panics \<Rightarrow> (Panics, ctx1, n1)
         | Returns (Inl err) \<Rightarrow> (Returns (None, Some err), ctx1, n1)
         | Returns (Inr st') \<Rightarrow>
             Send_loop P method path body headers (st'\<lparr>count := count st' + 1\<rparr>) ctx1 n1))"
  by (subst Send_loop.simps) (simp add: Let_def)

section \<open>The request log only grows\<close>

lemma Do_sent: "Do req n = (a, n') \<Longrightarrow> sent n' = sent n @ [req]"
  by (auto simp: Do_def split: list.splits)

lemma Disconnect_sent:
  "Disconnect P ctx n = (r, ctx', n') \<Longrightarrow> \<exists>ext. sent n' = sent n @ ext"
  by (auto simp: Disconnect_def split: option.splits run.splits if_splits prod.splits
           dest: Do_sent)

lemma Connect_sent:
  "Connect P ctx n = (r, ctx', n') \<Longrightarrow> \<exists>ext. sent n' = sent n @ ext"
  unfolding Connect_def
  by (auto simp: Let_def split: option.splits run.splits if_splits prod.splits answer.splits
           dest!: Do_sent Disconnect_sent)

lemma Reconnect_sent:
  "Reconnect P ctx n = (r, ctx', n') \<Longrightarrow> \<exists>ext. sent n' = sent n @ ext"
  unfolding Reconnect_def
  by (auto split: run.splits prod.splits dest!: Connect_sent Disconnect_sent)

lemma SendRaw_sent:
  "SendRaw P method path q body headers ctx n = (r, ctx', n') \<Longrightarrow> \<exists>ext. sent n' = sent n @ ext"
  unfolding SendRaw_def
  by (auto split: run.splits option.splits if_splits prod.splits answer.splits bodyArg.splits
           dest!: Do_sent)

lemma Send_loop_sent:
  "\<exists>ext. sent (snd (snd (Send_loop P method path body headers st ctx n))) = sent n @ ext"
proof (induction "length (pending n)" arbitrary: st ctx n rule: less_induct)
  case less
  obtain r ctx1 n1 where raw: "SendRaw P method path (continuation st) body headers ctx n = (r, ctx1, n1)"
    by (cases "SendRaw P method path (continuation st) body headers ctx n") auto
  from SendRaw_sent [OF raw] obtain e1 where e1: "sent n1 = sent n @ e1" by blast
  show ?case
  proof (cases "resume st \<and> count st < maxCount")
    case False
    then show ?thesis by (simp add: Send_loop_exit)
  next
    case True
    then have go: "resume st" "count st < maxCount" by simp_all
    show ?thesis
    proof (cases r)
      case Panics
      with go raw show ?thesis by (simp add: Send_loop_panic e1)
    next
      case (Returns v)
      show ?thesis
      proof (cases v)
        case (Inl err)
        with go raw Returns show ?thesis by (simp add: Send_loop_error e1)
      next
        case (Inr resp)
        note raw' = raw [unfolded Returns Inr]
        note step = Send_loop_response [OF go raw']
        from SendRaw_pending [OF raw'] have dec: "length (pending n1) < length (pending n)" .
        obtain r2 ctx2 n2
          where rc: "Reconnect P (ctx1\<lparr>reauthCount := reauthCount ctx1 + 1\<rparr>) n1 = (r2, ctx2, n2)"
          by (cases "Reconnect P (ctx1\<lparr>reauthCount := reauthCount ctx1 + 1\<rparr>) n1") auto
        from Reconnect_sent [OF rc] obtain e2 where e2: "sent n2 = sent n1 @ e2" by blast
        from Reconnect_pending [OF rc] dec have "length (pending n2) < length (pending n)" by simp
        from less [OF this] obtain e3
          where e3: "sent (snd (snd (Send_loop P method path body headers (start (continuation st)) ctx2 n2)))
                 = sent n2 @ e3"
          by blast
        have next_page: "\<exists>ext. sent (snd (snd (Send_loop P method path body headers st' ctx1 n1))) = sent n @ ext"
          for st'
          using less [OF dec, of st' ctx1] by (auto simp: e1)
        show ?thesis
          unfolding step using next_page
          by (auto simp: e1 e2 e3 rc split: run.splits sum.splits)
      qed
    qed
  qed
qed

lemma Send_loop_sent_after:
  assumes go: "resume st" "count st < maxCount"
    and raw: "SendRaw P method path (continuation st) body headers ctx n = (r, ctx1, n1)"
  shows "\<exists>ext. sent (snd (snd (Send_loop P method path body headers st ctx n))) = sent n1 @ ext"
proof (cases r)
  case Panics
  with go raw show ?thesis by (simp add: Send_loop_panic)
next
  case (Returns v)
  show ?thesis
  proof (cases v)
    case (Inl err)
    with go raw Returns show ?thesis by (simp add: Send_loop_error)
  next
    case (Inr resp)
    note raw' = raw [unfolded Returns Inr]
    note step = Send_loop_response [OF go raw']
    obtain r2 ctx2 n2
      where rc: "Reconnect P (ctx1\<lparr>reauthCount := reauthCount ctx1 + 1\<rparr>) n1 = (r2, ctx2, n2)"
      by (cases "Reconnect P (ctx1\<lparr>reauthCount := reauthCount ctx1 + 1\<rparr>) n1") auto
    from Reconnect_sent [OF rc] obtain e2 where e2: "sent n2 = sent n1 @ e2" by blast
    from Send_loop_sent [of P "method" "path" body headers "start (continuation st)" ctx2 n2] obtain e3
      where e3: "sent (snd (snd (Send_loop P method path body headers (start (continuation st)) ctx2 n2)))
             = sent n2 @ e3"
      by blast
    show ?thesis
      unfolding step using Send_loop_sent [of P "method" "path" body headers _ ctx1 n1]
      by (auto simp: e2 e3 rc split: run.splits sum.splits)
  qed
qed

lemma SendRaw_response:
  assumes "SendRaw P method path q body headers ctx n = (Returns (Inr resp), ctx1, n1)"
  shows "ctx1 = ctx" and "Client ctx \<noteq> None" and "body \<noteq> NotABody"
    and "\<exists>req. sent n1 = sent n @ [req] \<and> Method req = method \<and> params (URL req) = q"
  using assms unfolding SendRaw_def GetURL_def
  by (auto split: run.splits option.splits if_splits prod.splits answer.splits bodyArg.splits
        pathArg.splits dest!: Do_sent)

lemma SendRaw_dispatch:
  assumes "Client ctx \<noteq> None" and "body \<noteq> NotABody"
    and "GetURL P ctx path q = Returns u" and "requestOk P method u"
  shows "\<exists>r n1 req. SendRaw P method path q body headers ctx n = (Returns r, ctx, n1)
           \<and> sent n1 = sent n @ [req] \<and> Method req = method \<and> URL req = u"
  using assms unfolding SendRaw_def
  by (cases body; cases "pending n") (auto simp: Do_def split: answer.splits)

lemma map_of_fold_update:
  "map_of (fold (\<lambda>(k, v) m. AList.update k v m) members m) k =
     (case map_of (rev members) k of None \<Rightarrow> map_of m k | Some v \<Rightarrow> Some v)"
  by (induction members arbitrary: m) (auto simp: update_conv' split: option.splits)

lemma Send_page_resume:
  assumes "Send_page (Object members) st = Returns (Inr st')"
    and "map_of (rev members) ''resume'' = Some (JString tok)"
  shows "resume st'" and "resumeKey st' = tok" and "count st' = count st"
  using assms unfolding Send_page_def Unmarshal_def
  by (auto simp: map_of_fold_update Let_def split: option.splits run.splits json.splits if_splits)

section \<open>Continuation pages\<close>

text \<open>
  C3, as the code has it. An iteration receives a 2xx page whose \<^verbatim>\<open>resume\<close> member is a
  string that is not empty, the page is decoded and combined, and the ceiling of 10000
  iterations is not reached: then, when the request for the next page can be built, the next
  request that \<^verbatim>\<open>Send\<close> puts on the wire has the query \<^verbatim>\<open>{"resume": token}\<close> and
  nothing else, whatever the caller's query was.
\<close>

theorem Send_resume_query:
  assumes "resume st" and "count st < maxCount"
    and "SendRaw P method path (continuation st) body headers ctx n = (Returns (Inr resp), ctx1, n1)"
    and "200 \<le> StatusCode resp" and "StatusCode resp \<le> 299"
    and "Body resp = Object members"
    and "map_of (rev members) ''resume'' = Some (JString tok)" and "tok \<noteq> []"
    and "Send_page (Body resp) (st\<lparr>query := continuation st\<rparr>) = Returns (Inr st')"
    and "count st + 1 < maxCount"
    and "GetURL P ctx path [(''resume'', tok)] = Returns u" and "requestOk P method u"
  shows "\<exists>req ext. sent (snd (snd (Send_loop P method path body headers st ctx n)))
                     = sent n1 @ req # ext
           \<and> Method req = method \<and> URL req = u \<and> params (URL req) = [(''resume'', tok)]"
proof -
  let ?st = "st'\<lparr>count := count st' + 1\<rparr>"
  note raw = assms(3)
  from SendRaw_response [OF raw] have ctx1: "ctx1 = ctx" and cl: "Client ctx \<noteq> None"
    and bd: "body \<noteq> NotABody" by simp_all
  have page: "Send_page (Object members) (st\<lparr>query := continuation st\<rparr>) = Returns (Inr st')"
    using assms(6,9) by simp
  from Send_page_resume [OF page assms(7)]
  have st': "resume st'" "resumeKey st' = tok" "count st' = count st" by simp_all
  have step: "Send_loop P method path body headers st ctx n
              = Send_loop P method path body headers ?st ctx n1"
    using assms(4,5,6,9) by (simp add: Send_loop_response [OF assms(1,2) raw] ctx1)
  have go: "resume ?st" "count ?st < maxCount"
    using st' assms(10) by simp_all
  have q: "continuation ?st = [(''resume'', tok)]"
    using st' assms(8) by (simp add: continuation_def)
  from SendRaw_dispatch [OF cl bd assms(11,12), of headers n1] obtain r n2 req
    where raw2: "SendRaw P method path [(''resume'', tok)] body headers ctx n1 = (Returns r, ctx, n2)"
      and req: "sent n2 = sent n1 @ [req]" "Method req = method" "URL req = u"
    by blast
  from Send_loop_sent_after [OF go raw2 [folded q]] obtain ext
    where "sent (snd (snd (Send_loop P method path body headers ?st ctx n1))) = sent n2 @ ext"
    by blast
  moreover have "params u = [(''resume'', tok)]"
    using assms(11) by (auto simp: GetURL_def split: if_splits pathArg.splits)
  ultimately show ?thesis
    using req step by auto
qed

text \<open>
  A listing asked for with \<^verbatim>\<open>zone=System\<close>: the second request carries only the token.
\<close>

theorem Send_resume_query_witness:
  "\<exists>req ext.
     sent (snd (snd (Send golib ''GET'' (Single ''items'') [(''zone'', ''System'')] NilBody [] connected
                       (script [page [(''items'', JArray [JNumber 1]), (''resume'', JString ''abc'')],
                                page [(''items'', JArray [JNumber 2])]]))))
       = \<lparr>Method = ''GET'',
           URL = \<lparr>base = cluster, appended = ''items'', params = [(''zone'', ''System'')]\<rparr>,
           Header = setHeaders [] connected [], Payload = None\<rparr> # req # ext
     \<and> Method req = ''GET''
     \<and> URL req = \<lparr>base = cluster, appended = ''items'', params = [(''resume'', ''abc'')]\<rparr>"
proof -
  let ?st = "start [(''zone'', ''System'')]"
  let ?members = "[(''items'', JArray [JNumber 1]), (''resume'', JString ''abc'')]"
  let ?resp = "\<lparr>StatusCode = 200, SetCookie = [], Body = Object ?members\<rparr>"
  let ?req = "\<lparr>Method = ''GET'',
                URL = \<lparr>base = cluster, appended = ''items'', params = [(''zone'', ''System'')]\<rparr>,
                Header = setHeaders [] connected [], Payload = None\<rparr>"
  let ?n1 = "\<lparr>pending = [page [(''items'', JArray [JNumber 2])]], sent = [?req]\<rparr>"
  let ?st' = "\<lparr>query = [(''zone'', ''System'')], resumeKey = ''abc'',
               jsonBody = [(''items'', JArray [JNumber 1])],
               jsonTemp = [(''items'', JArray [JNumber 1])], resume = True, count = 0\<rparr>"
  let ?u = "\<lparr>base = cluster, appended = ''items'', params = [(''resume'', ''abc'')]\<rparr>"
  have raw: "SendRaw golib ''GET'' (Single ''items'') (continuation ?st) NilBody [] connected
               (script [page ?members, page [(''items'', JArray [JNumber 2])]])
             = (Returns (Inr ?resp), connected, ?n1)"
    by (simp add: SendRaw_def GetURL_def golib_def connected_def cluster_def Do_def script_def
          page_def continuation_def start_def)
  have pg: "Send_page (Body ?resp) (?st\<lparr>query := continuation ?st\<rparr>) = Returns (Inr ?st')"
    by (simp add: Send_page_def Unmarshal_def continuation_def start_def Let_def)
  have url: "GetURL golib connected (Single ''items'') [(''resume'', ''abc'')] = Returns ?u"
    by (simp add: GetURL_def golib_def connected_def)
  have ok: "requestOk golib ''GET'' ?u"
    by (simp add: golib_def)
  from Send_resume_query [OF _ _ raw _ _ _ _ _ pg _ url ok, of ?members]
  have "\<exists>req ext.
          sent (snd (snd (Send_loop golib ''GET'' (Single ''items'') NilBody [] ?st connected
                   (script [page ?members, page [(''items'', JArray [JNumber 2])]]))))
            = sent ?n1 @ req # ext
          \<and> Method req = ''GET'' \<and> URL req = ?u \<and> params (URL req) = [(''resume'', ''abc'')]"
    by (simp add: start_def maxCount_def)
  then show ?thesis
    unfolding Send_def by auto
qed

text \<open>
  C3 as stated fails for a \<^verbatim>\<open>resume\<close> member that is present, not null and empty: the
  guard \<^verbatim>\<open>resumeKey != ""\<close> does not replace the query, and the second request of this
  call goes out with \<^verbatim>\<open>zone=System\<close>, not with \<^verbatim>\<open>{"resume": ""}\<close>.
\<close>

theorem Send_empty_resume_counterexample:
  "(case Send golib ''GET'' (Single ''items'') [(''zone'', ''System'')] NilBody [] connected
          (script [page [(''items'', JArray [JNumber 1]), (''resume'', JString [])],
                   page [(''items'', JArray [JNumber 2])]]) of
      (r, ctx, n) \<Rightarrow> map (\<lambda>q. params (URL q)) (sent n))
   = [[(''zone'', ''System'')], [(''zone'', ''System'')]]"
  by code_simp

section \<open>Cookies\<close>

lemma scanCookies_fields:
  "Client (scanCookies cs ctx) = Client ctx"
  "Endpoint (scanCookies cs ctx) = Endpoint ctx"
  "reauthCount (scanCookies cs ctx) = reauthCount ctx"
  by (induction cs arbitrary: ctx) (auto split: option.splits)

text \<open>
  C8, as the code has it. Each \<^verbatim>\<open>Set-Cookie\<close> header is tried against the session
  pattern first and against the anti-forgery pattern only when the session pattern does not
  match it; every match overwrites the stored token, so for each token the last header that
  sets it determines the value, and a token no header sets keeps what it held.
\<close>

theorem scanCookies_last_match:
  "SessionToken (scanCookies cs ctx) = last (SessionToken ctx # List.map_filter rexSession cs)
   \<and> CsrfToken (scanCookies cs ctx)
       = last (CsrfToken ctx # List.map_filter rexCsrf (filter (\<lambda>c. rexSession c = None) cs))"
proof (induction cs arbitrary: ctx)
  case Nil
  show ?case by simp
next
  case (Cons c cs)
  show ?case
  proof (cases "rexSession c")
    case (Some m)
    with Cons [of "ctx\<lparr>SessionToken := m\<rparr>"] show ?thesis
      by simp
  next
    case None
    show ?thesis
    proof (cases "rexCsrf c")
      case (Some m)
      with None Cons [of "ctx\<lparr>CsrfToken := m\<rparr>"] show ?thesis
        by simp
    next
      case n2: None
      with None Cons [of ctx] show ?thesis
        by simp
    qed
  qed
qed

text \<open>
  C8 as stated fails: of two headers that carry a session token the second is stored, and a
  header that matches the session pattern is never tried against the anti-forgery pattern.
\<close>

theorem Connect_last_cookie_counterexample:
  "(case Connect golib (NewSession cluster)
          (script [login [''isisessid=A'', ''isisessid=B'', ''isicsrf=C'',
                          ''isicsrf=D; isisessid=E'']]) of
      (r, ctx, n) \<Rightarrow> (r, SessionToken ctx, CsrfToken ctx))
   = (Returns None, ''E'', ''C'')"
  by code_simp

section \<open>Disconnect\<close>

text \<open>
  A session holds tokens only while it holds a client: this is so for a session fresh from
  \<^verbatim>\<open>NewSession\<close>, the setters do not touch the three fields, and every call of
  \<^verbatim>\<open>Disconnect\<close>, \<^verbatim>\<open>Connect\<close>, \<^verbatim>\<open>Reconnect\<close> and \<^verbatim>\<open>Send\<close> keeps it
  so, however the call ends.
\<close>

lemma NewSession_no_client:
  "Client (NewSession e) = None \<and> SessionToken (NewSession e) = [] \<and> CsrfToken (NewSession e) = []"
  by (simp add: NewSession_def)

lemma Disconnect_no_client:
  assumes "Client ctx = None \<longrightarrow> SessionToken ctx = [] \<and> CsrfToken ctx = []"
    and "Disconnect P ctx n = (r, ctx', n')"
  shows "Client ctx' = None \<longrightarrow> SessionToken ctx' = [] \<and> CsrfToken ctx' = []"
  using assms
  by (auto simp: Disconnect_def split: option.splits run.splits if_splits prod.splits)

lemma Connect_no_client:
  assumes "Client ctx = None \<longrightarrow> SessionToken ctx = [] \<and> CsrfToken ctx = []"
    and "Connect P ctx n = (r, ctx', n')"
  shows "Client ctx' = None \<longrightarrow> SessionToken ctx' = [] \<and> CsrfToken ctx' = []"
proof (cases "Disconnect P ctx n")
  case (fields r1 ctx1 n1)
  note inv = Disconnect_no_client [OF assms(1) fields]
  show ?thesis
  proof (cases r1)
    case Panics
    with assms(2) fields inv show ?thesis by (simp add: Connect_def)
  next
    case (Returns ignored)
    with assms(2) fields have "Client ctx' \<noteq> None"
      by (auto simp: Connect_def Let_def init_def scanCookies_fields
            split: option.splits run.splits if_splits prod.splits answer.splits)
    then show ?thesis by blast
  qed
qed

lemma Reconnect_no_client:
  assumes "Client ctx = None \<longrightarrow> SessionToken ctx = [] \<and> CsrfToken ctx = []"
    and "Reconnect P ctx n = (r, ctx', n')"
  shows "Client ctx' = None \<longrightarrow> SessionToken ctx' = [] \<and> CsrfToken ctx' = []"
proof (cases "Disconnect P ctx n")
  case (fields r1 ctx1 n1)
  note inv = Disconnect_no_client [OF assms(1) fields]
  show ?thesis
  proof (cases r1)
    case Panics
    with assms(2) fields inv show ?thesis by (simp add: Reconnect_def)
  next
    case (Returns ignored)
    with assms(2) fields have "Connect P ctx1 n1 = (r, ctx', n')" by (simp add: Reconnect_def)
    from Connect_no_client [OF inv this] show ?thesis .
  qed
qed

lemma SendRaw_session:
  "SendRaw P meth pth q body headers ctx n = (r, ctx1, n1) \<Longrightarrow> ctx1 = ctx"
  unfolding SendRaw_def
  by (auto split: run.splits option.splits if_splits prod.splits answer.splits bodyArg.splits)

lemma Send_loop_no_client:
  assumes "Client ctx = None \<longrightarrow> SessionToken ctx = [] \<and> CsrfToken ctx = []"
    and "Send_loop P meth pth body headers st ctx n = (r, ctx', n')"
  shows "Client ctx' = None \<longrightarrow> SessionToken ctx' = [] \<and> CsrfToken ctx' = []"
  using assms
proof (induction "length (pending n)" arbitrary: st ctx n rule: less_induct)
  case less
  obtain r0 n1 where raw: "SendRaw P meth pth (continuation st) body headers ctx n = (r0, ctx, n1)"
    using SendRaw_session [of P meth pth "continuation st" body headers ctx n]
    by (cases "SendRaw P meth pth (continuation st) body headers ctx n") auto
  show ?case
  proof (cases "resume st \<and> count st < maxCount")
    case False
    with less.prems show ?thesis by (simp add: Send_loop_exit)
  next
    case True
    then have go: "resume st" "count st < maxCount" by simp_all
    show ?thesis
    proof (cases r0)
      case Panics
      with go raw less.prems show ?thesis by (simp add: Send_loop_panic)
    next
      case (Returns v)
      show ?thesis
      proof (cases v)
        case (Inl err)
        with go raw Returns less.prems show ?thesis by (simp add: Send_loop_error)
      next
        case (Inr resp)
        note raw' = raw [unfolded Returns Inr]
        note step = Send_loop_response [OF go raw']
        from SendRaw_pending [OF raw'] have dec: "length (pending n1) < length (pending n)" .
        obtain r2 ctx2 n2
          where rc: "Reconnect P (ctx\<lparr>reauthCount := reauthCount ctx + 1\<rparr>) n1 = (r2, ctx2, n2)"
          by (cases "Reconnect P (ctx\<lparr>reauthCount := reauthCount ctx + 1\<rparr>) n1") auto
        have "Client (ctx\<lparr>reauthCount := reauthCount ctx + 1\<rparr>) = None \<longrightarrow>
              SessionToken (ctx\<lparr>reauthCount := reauthCount ctx + 1\<rparr>) = [] \<and>
              CsrfToken (ctx\<lparr>reauthCount := reauthCount ctx + 1\<rparr>) = []"
          using less.prems(1) by simp
        note inv2 = Reconnect_no_client [OF this rc]
        from Reconnect_pending [OF rc] dec have dec2: "length (pending n2) < length (pending n)" by simp
        note retry = less.hyps [OF dec2 inv2, of "start (continuation st)"]
        note next_page = less.hyps [OF dec less.prems(1)]
        consider (here) "ctx' = ctx" | (relogin) "ctx' = ctx2"
          | (retried) "Send_loop P meth pth body headers (start (continuation st)) ctx2 n2 = (r, ctx', n')"
          | (paged) st' where "Send_loop P meth pth body headers st' ctx n1 = (r, ctx', n')"
          using less.prems(2) unfolding step rc
          by (auto split: if_splits run.splits sum.splits)
        then show ?thesis
        proof cases
          case here
          with less.prems(1) show ?thesis by simp
        next
          case relogin
          with inv2 show ?thesis by simp
        next
          case retried
          from retry [OF this] show ?thesis .
        next
          case paged
          from next_page [OF this] show ?thesis .
        qed
      qed
    qed
  qed
qed

lemma Send_no_client:
  assumes "Client ctx = None \<longrightarrow> SessionToken ctx = [] \<and> CsrfToken ctx = []"
    and "Send P meth pth q body headers ctx n = (r, ctx', n')"
  shows "Client ctx' = None \<longrightarrow> SessionToken ctx' = [] \<and> CsrfToken ctx' = []"
  using Send_loop_no_client [OF assms(1) assms(2) [unfolded Send_def]] .

text \<open>
  C9. The endpoint is a URL, as \<^verbatim>\<open>SetEndpoint\<close> requires of it, so that the DELETE request
  on the session resource is built. With no client held \<^verbatim>\<open>Disconnect\<close> returns nil and
  changes neither the session nor the network. With a client it sends the DELETE with the
  current tokens as headers and then releases the client and clears both tokens whatever the
  outcome, returning the transport failure of the DELETE if there was one. So, on a session
  that holds tokens only while it holds a client, a \<^verbatim>\<open>Disconnect\<close> leaves both tokens
  empty and a second one right after it returns nil and changes nothing; and on a session
  fresh from \<^verbatim>\<open>NewSession\<close>, before any \<^verbatim>\<open>Connect\<close>, it returns nil with both tokens
  empty.
\<close>

theorem Disconnect_teardown:
  assumes "urlParses P (Endpoint ctx)"
    and "requestOk P ''DELETE'' \<lparr>base = Endpoint ctx, appended = sessionPath, params = []\<rparr>"
  shows "(Client ctx = None \<longrightarrow> Disconnect P ctx n = (Returns None, ctx, n))
   \<and> (Client ctx \<noteq> None \<longrightarrow>
        (\<exists>a n'.
           Do \<lparr>Method = ''DELETE'',
               URL = \<lparr>base = Endpoint ctx, appended = sessionPath, params = []\<rparr>,
               Header = setHeaders [] ctx [], Payload = None\<rparr> n = (a, n')
           \<and> Disconnect P ctx n =
               (Returns (case a of Fails \<Rightarrow> Some DisconnectSessionDelete | Answers resp \<Rightarrow> None),
                ctx\<lparr>Client := None, SessionToken := [], CsrfToken := []\<rparr>, n')))
   \<and> ((Client ctx = None \<longrightarrow> SessionToken ctx = [] \<and> CsrfToken ctx = []) \<longrightarrow>
        (\<exists>r ctx' n'.
           Disconnect P ctx n = (Returns r, ctx', n')
           \<and> Client ctx' = None \<and> SessionToken ctx' = [] \<and> CsrfToken ctx' = []
           \<and> Disconnect P ctx' n' = (Returns None, ctx', n')))
   \<and> Disconnect P (NewSession e) n = (Returns None, NewSession e, n)
   \<and> SessionToken (NewSession e) = [] \<and> CsrfToken (NewSession e) = []"
proof -
  let ?u = "\<lparr>base = Endpoint ctx, appended = sessionPath, params = []\<rparr>"
  let ?req = "\<lparr>Method = ''DELETE'', URL = ?u, Header = setHeaders [] ctx [], Payload = None\<rparr>"
  let ?torn = "ctx\<lparr>Client := None, SessionToken := [], CsrfToken := []\<rparr>"
  obtain a n' where sent: "Do ?req n = (a, n')"
    by (cases "Do ?req n") auto
  have url: "GetURL P ctx (Single sessionPath) [] = Returns ?u"
    using assms(1) by (simp add: GetURL_def)
  have idle: "Client ctx = None \<longrightarrow> Disconnect P ctx n = (Returns None, ctx, n)"
    by (simp add: Disconnect_def)
  have held: "Disconnect P ctx n =
      (Returns (case a of Fails \<Rightarrow> Some DisconnectSessionDelete | Answers resp \<Rightarrow> None), ?torn, n')"
    if "Client ctx \<noteq> None"
    using that assms(2) url sent by (auto simp: Disconnect_def)
  have again: "Disconnect P c m = (Returns None, c, m)" if "Client c = None" for c m
    using that by (simp add: Disconnect_def)
  have twice: "\<exists>r ctx' n'.
           Disconnect P ctx n = (Returns r, ctx', n')
           \<and> Client ctx' = None \<and> SessionToken ctx' = [] \<and> CsrfToken ctx' = []
           \<and> Disconnect P ctx' n' = (Returns None, ctx', n')"
    if inv: "Client ctx = None \<longrightarrow> SessionToken ctx = [] \<and> CsrfToken ctx = []"
  proof (cases "Client ctx = None")
    case True
    with idle inv again [of ctx n] show ?thesis by auto
  next
    case False
    from held [OF False] again [of ?torn n'] show ?thesis by auto
  qed
  have fresh: "Disconnect P (NewSession e) n = (Returns None, NewSession e, n)"
    "SessionToken (NewSession e) = []" "CsrfToken (NewSession e) = []"
    by (simp_all add: Disconnect_def NewSession_def)
  from idle held sent twice fresh show ?thesis
    by blast
qed

text \<open>
  The DELETE fails in transport: the failure is returned, the session is torn down all the
  same, and a second \<^verbatim>\<open>Disconnect\<close> returns nil.
\<close>

theorem Disconnect_teardown_witness:
  "urlParses golib (Endpoint connected)
   \<and> (case Disconnect golib connected (script [Fails]) of
        (r, ctx, n) \<Rightarrow>
          (r, Client ctx, SessionToken ctx, CsrfToken ctx, map Method (sent n),
           fst (Disconnect golib ctx n)))
     = (Returns (Some DisconnectSessionDelete), None, [], [], [''DELETE''], Returns None)"
proof -
  have parses: "urlParses golib (Endpoint connected)"
    and accepted: "requestOk golib ''DELETE''
                     \<lparr>base = Endpoint connected, appended = sessionPath, params = []\<rparr>"
    and held: "Client connected \<noteq> None"
    by (simp_all add: golib_def connected_def)
  from Disconnect_teardown [OF parses accepted, of "script [Fails]" cluster] held
  obtain a n' where
    "Do \<lparr>Method = ''DELETE'',
         URL = \<lparr>base = Endpoint connected, appended = sessionPath, params = []\<rparr>,
         Header = setHeaders [] connected [], Payload = None\<rparr> (script [Fails]) = (a, n')"
    and "Disconnect golib connected (script [Fails])
         = (Returns (case a of Fails \<Rightarrow> Some DisconnectSessionDelete | Answers resp \<Rightarrow> None),
            connected\<lparr>Client := None, SessionToken := [], CsrfToken := []\<rparr>, n')"
    by blast
  with parses show ?thesis
    by (auto simp: Do_def script_def Disconnect_def)
qed

text \<open>
  The two hypotheses are what the teardown rests on. An endpoint that \<^verbatim>\<open>url.Parse\<close>
  rejects makes \<^verbatim>\<open>GetURL\<close> panic, and a request that \<^verbatim>\<open>http.NewRequest\<close> rejects is
  returned as an error, in both cases before anything is sent and with the session as it
  was.
\<close>

lemma Disconnect_unparsed_endpoint:
  "(case Disconnect golib (snd (SetEndpoint '':'' connected)) (script [status 204]) of
      (r, ctx, n) \<Rightarrow> (r, Client ctx, SessionToken ctx, CsrfToken ctx, sent n))
   = (Panics, Some \<lparr>Timeout = 120000000000, InsecureSkipVerify = False\<rparr>, ''s1'', ''c1'', [])"
  by code_simp

lemma Disconnect_request_rejected:
  "Client ctx \<noteq> None \<Longrightarrow> GetURL P ctx (Single sessionPath) [] = Returns u \<Longrightarrow>
   \<not> requestOk P ''DELETE'' u \<Longrightarrow>
   Disconnect P ctx n = (Returns (Some DisconnectNewRequest), ctx, n)"
  by (auto simp: Disconnect_def)

section \<open>Re-authentication\<close>

text \<open>
  C1 has one call of \<^verbatim>\<open>Send\<close> re-authenticate at most once and return an error on a
  second consecutive 401. The code does otherwise: \<^verbatim>\<open>Send\<close> is answered 401,
  reconnects, and the retry is answered 401 again. A successful \<^verbatim>\<open>Connect\<close> has reset
  the attempt counter to 0, so the retry reconnects a second time instead of returning an
  error, and the call ends with the payload of the third attempt: two logins within one call.
\<close>

theorem Send_reauthenticates_twice:
  "(case Send golib ''GET'' (Single ''platform/latest'') [] NilBody [] connected
          (script [status 401, status 204, login cookies,
                   status 401, status 204, login cookies,
                   page [(''latest'', JString ''16'')]]) of
      (r, ctx, n) \<Rightarrow> (r, map Method (sent n)))
   = (Returns (Some [(''latest'', JString ''16'')], None),
      [''GET'', ''DELETE'', ''POST'', ''GET'', ''DELETE'', ''POST'', ''GET''])"
  by code_simp

text \<open>
  The same for any number of rounds: each 401 is followed by a reconnect, and the call
  returns the payload after \<open>k\<close> logins. Nothing in \<^verbatim>\<open>Send\<close> bounds \<open>k\<close>.
\<close>

lemma cookies_match:
  "rexSession ''isisessid=s2; path=/; HttpOnly'' = Some ''s2''"
  "rexSession ''isicsrf=c2; path=/'' = None"
  "rexCsrf ''isicsrf=c2; path=/'' = Some ''c2''"
  by code_simp+

lemma scanCookies_cookies:
  "scanCookies cookies ctx = ctx\<lparr>SessionToken := ''s2'', CsrfToken := ''c2''\<rparr>"
  by (simp add: cookies_def cookies_match)

lemma Reconnect_round:
  assumes "Client ctx \<noteq> None" and "Endpoint ctx = cluster"
  shows "\<exists>r2 r3. Reconnect golib ctx \<lparr>pending = status 204 # login cookies # rest, sent = L\<rparr>
           = (Returns None, relogin ctx, \<lparr>pending = rest, sent = L @ [r2, r3]\<rparr>)
         \<and> Method r2 = ''DELETE'' \<and> Method r3 = ''POST''"
  using assms
  by (auto simp: Reconnect_def Connect_def Disconnect_def GetURL_def golib_def Do_def init_def
        status_def login_def scanCookies_cookies relogin_def Let_def)

lemma Send_round:
  assumes "Client ctx \<noteq> None" and "Endpoint ctx = cluster" and "reauthCount ctx = 0"
  shows "\<exists>r1 r2 r3.
           Send_loop golib ''GET'' (Single p) NilBody hs (start q) ctx
             \<lparr>pending = status 401 # status 204 # login cookies # rest, sent = L\<rparr>
           = Send_loop golib ''GET'' (Single p) NilBody hs (start q) (relogin ctx)
               \<lparr>pending = rest, sent = L @ [r1, r2, r3]\<rparr>
         \<and> Method r1 = ''GET'' \<and> Method r2 = ''DELETE'' \<and> Method r3 = ''POST''"
proof -
  let ?r1 = "\<lparr>Method = ''GET'', URL = \<lparr>base = cluster, appended = p, params = q\<rparr>,
               Header = setHeaders [] ctx hs, Payload = None\<rparr>"
  let ?n1 = "\<lparr>pending = status 204 # login cookies # rest, sent = L @ [?r1]\<rparr>"
  have raw: "SendRaw golib ''GET'' (Single p) (continuation (start q)) NilBody hs ctx
               \<lparr>pending = status 401 # status 204 # login cookies # rest, sent = L\<rparr>
             = (Returns (Inr \<lparr>StatusCode = 401, SetCookie = [], Body = Empty\<rparr>), ctx, ?n1)"
    using assms
    by (auto simp: SendRaw_def GetURL_def golib_def Do_def status_def continuation_def start_def)
  have c: "Client (ctx\<lparr>reauthCount := 1\<rparr>) \<noteq> None"
    "Endpoint (ctx\<lparr>reauthCount := 1\<rparr>) = cluster"
    using assms by simp_all
  from Reconnect_round [OF c, of rest "L @ [?r1]"] obtain r2 r3
    where rc: "Reconnect golib (ctx\<lparr>reauthCount := 1\<rparr>) ?n1
               = (Returns None, relogin (ctx\<lparr>reauthCount := 1\<rparr>),
                  \<lparr>pending = rest, sent = (L @ [?r1]) @ [r2, r3]\<rparr>)"
      and m: "Method r2 = ''DELETE''" "Method r3 = ''POST''"
    by blast
  have "Send_loop golib ''GET'' (Single p) NilBody hs (start q) ctx
             \<lparr>pending = status 401 # status 204 # login cookies # rest, sent = L\<rparr>
        = Send_loop golib ''GET'' (Single p) NilBody hs (start q) (relogin ctx)
               \<lparr>pending = rest, sent = L @ [?r1, r2, r3]\<rparr>"
    using assms(3)
    by (subst Send_loop_response [OF _ _ raw])
       (simp_all add: start_def maxCount_def defaultMaxReauthCount_def rc relogin_def
          continuation_def)
  with m show ?thesis
    by (intro exI [of _ ?r1] exI [of _ r2] exI [of _ r3]) simp
qed

lemma Send_rounds:
  assumes "Client ctx \<noteq> None" and "Endpoint ctx = cluster" and "reauthCount ctx = 0"
  shows "fst (Send_loop golib ''GET'' (Single p) NilBody hs (start q) ctx
                \<lparr>pending = rounds k @ [page [(''latest'', JString ''16'')]], sent = L\<rparr>)
           = Returns (Some [(''latest'', JString ''16'')], None)
         \<and> length (filter (\<lambda>r. Method r = ''POST'')
               (sent (snd (snd (Send_loop golib ''GET'' (Single p) NilBody hs (start q) ctx
                  \<lparr>pending = rounds k @ [page [(''latest'', JString ''16'')]], sent = L\<rparr>)))))
           = length (filter (\<lambda>r. Method r = ''POST'') L) + k"
  using assms
proof (induction k arbitrary: ctx L)
  case 0
  have raw: "SendRaw golib ''GET'' (Single p) (continuation (start q)) NilBody hs ctx
               \<lparr>pending = [page [(''latest'', JString ''16'')]], sent = L\<rparr>
             = (Returns (Inr \<lparr>StatusCode = 200, SetCookie = [],
                               Body = Object [(''latest'', JString ''16'')]\<rparr>), ctx,
                \<lparr>pending = [], sent = L @ [\<lparr>Method = ''GET'',
                    URL = \<lparr>base = cluster, appended = p, params = q\<rparr>,
                    Header = setHeaders [] ctx hs, Payload = None\<rparr>]\<rparr>)"
    using 0
    by (auto simp: SendRaw_def GetURL_def golib_def Do_def page_def continuation_def start_def)
  have "Send_loop golib ''GET'' (Single p) NilBody hs (start q) ctx
               \<lparr>pending = [page [(''latest'', JString ''16'')]], sent = L\<rparr>
        = (Returns (Some [(''latest'', JString ''16'')], None), ctx,
           \<lparr>pending = [], sent = L @ [\<lparr>Method = ''GET'',
                    URL = \<lparr>base = cluster, appended = p, params = q\<rparr>,
                    Header = setHeaders [] ctx hs, Payload = None\<rparr>]\<rparr>)"
    by (subst Send_loop_response [OF _ _ raw])
       (simp_all add: start_def maxCount_def Send_page_def Unmarshal_def Let_def Send_loop_exit
          continuation_def)
  then show ?case
    by (simp add: rounds_def)
next
  case (Suc k)
  from Send_round [OF Suc.prems, of p hs q "rounds k @ [page [(''latest'', JString ''16'')]]" L]
  obtain r1 r2 r3 where step: "Send_loop golib ''GET'' (Single p) NilBody hs (start q) ctx
             \<lparr>pending = status 401 # status 204 # login cookies # rounds k @ [page [(''latest'', JString ''16'')]], sent = L\<rparr>
           = Send_loop golib ''GET'' (Single p) NilBody hs (start q) (relogin ctx)
               \<lparr>pending = rounds k @ [page [(''latest'', JString ''16'')]], sent = L @ [r1, r2, r3]\<rparr>"
    and m: "Method r1 = ''GET''" "Method r2 = ''DELETE''" "Method r3 = ''POST''"
    by blast
  have c: "Client (relogin ctx) \<noteq> None" "Endpoint (relogin ctx) = cluster" "reauthCount (relogin ctx) = 0"
    using Suc.prems by (simp_all add: relogin_def)
  have r: "rounds (Suc k) = status 401 # status 204 # login cookies # rounds k"
    by (simp add: rounds_def)
  from Suc.IH [OF c, of "L @ [r1, r2, r3]"] m show ?case
    by (simp add: r step)
qed

lemma Send_reauth_rounds:
  "fst (Send golib ''GET'' (Single ''platform/latest'') [] NilBody [] connected
          (script (rounds k @ [page [(''latest'', JString ''16'')]])))
     = Returns (Some [(''latest'', JString ''16'')], None)
   \<and> length (filter (\<lambda>r. Method r = ''POST'')
         (sent (snd (snd (Send golib ''GET'' (Single ''platform/latest'') [] NilBody [] connected
                            (script (rounds k @ [page [(''latest'', JString ''16'')]])))))))
     = k"
  using Send_rounds [of connected "''platform/latest''" "[]" "[]" k "[]"]
  by (simp add: Send_def script_def connected_def)

text \<open>
  C4 has the retry after a 401 run with the caller's original query. The code does otherwise:
  the first page of a listing asked for with \<^verbatim>\<open>zone=System\<close> carries a resume token;
  the request for the second page is answered 401. After the reconnect the retry is called
  with the query variable as the loop left it, \<^verbatim>\<open>{"resume": "tok"}\<close>, not with the
  caller's parameters, and the item of the first page is missing from the result.
\<close>

theorem Send_retry_keeps_resume_query:
  "(case Send golib ''GET'' (Single ''items'') [(''zone'', ''System'')] NilBody [] connected
          (script [page [(''items'', JArray [JNumber 1]), (''resume'', JString ''tok'')],
                   status 401, status 204, login cookies,
                   page [(''items'', JArray [JNumber 2])]]) of
      (r, ctx, n) \<Rightarrow> (r, map (\<lambda>q. (Method q, params (URL q))) (sent n)))
   = (Returns (Some [(''items'', JArray [JNumber 2])], None),
      [(''GET'', [(''zone'', ''System'')]), (''GET'', [(''resume'', ''tok'')]),
       (''DELETE'', []), (''POST'', []), (''GET'', [(''resume'', ''tok'')])])"
  by code_simp

section \<open>Tokens after a login\<close>

text \<open>A login that succeeds leaves both tokens set, the counter at 0 and a client held.\<close>

lemma Connect_success:
  "Connect P ctx n = (Returns None, ctx', n') \<Longrightarrow>
   SessionToken ctx' \<noteq> [] \<and> CsrfToken ctx' \<noteq> [] \<and> reauthCount ctx' = 0 \<and> Client ctx' \<noteq> None"
  unfolding Connect_def
  by (auto simp: Let_def init_def scanCookies_fields
        split: option.splits run.splits if_splits prod.splits answer.splits)

text \<open>
  C5 has the two tokens both empty or both set after every completed call, failed ones
  included. The code does otherwise: the login response sets the session cookie and no
  anti-forgery cookie, and \<^verbatim>\<open>Connect\<close> returns its error with the session token stored
  and the anti-forgery token empty.
\<close>

theorem Connect_leaves_one_token:
  "(case Connect golib (NewSession cluster) (script [login [''isisessid=abc; path=/'']]) of
      (r, ctx, n) \<Rightarrow> (r, SessionToken ctx, CsrfToken ctx))
   = (Returns (Some ConnectNoCsrfToken), ''abc'', [])"
  by code_simp

section \<open>Merging pages\<close>

text \<open>
  What the combining loop does for a key of the page when it does not panic: two arrays are
  appended, the accumulated elements first; in every other case the value of the page is
  stored. Keys the page does not have keep their value. The two-page listing of the
  specification comes out as one array.
\<close>

lemma combine_other_keys:
  "combine pg acc = Returns merged \<Longrightarrow> k \<notin> fst ` set pg \<Longrightarrow> map_of merged k = map_of acc k"
proof (induction pg arbitrary: acc)
  case Nil
  then show ?case by simp
next
  case (Cons kv pg)
  obtain key dval where kv: "kv = (key, dval)" by (cases kv)
  from Cons.prems kv have ne: "k \<noteq> key" and rest: "k \<notin> fst ` set pg" by auto
  from Cons.prems(1) kv obtain acc' where
    "combine pg acc' = Returns merged" and "map_of acc' k = map_of acc k"
    using ne by (auto simp: update_conv' split: option.splits json.splits)
  with Cons.IH [OF _ rest] show ?case by simp
qed

lemma combine_append:
  "fold (\<lambda>v acc. acc @ [v]) vs sval = sval @ vs"
  by (induction vs arbitrary: sval) simp_all

lemma combine_policy:
  assumes "combine pg acc = Returns merged" and "distinct (map fst pg)" and "(k, d) \<in> set pg"
  shows "map_of merged k =
           (case map_of acc k of
              Some (JArray xs) \<Rightarrow> (case d of JArray ys \<Rightarrow> Some (JArray (xs @ ys)) | _ \<Rightarrow> None)
            | _ \<Rightarrow> Some d)"
  using assms
proof (induction pg arbitrary: acc)
  case Nil
  then show ?case by simp
next
  case (Cons kv pg)
  obtain key dval where kv: "kv = (key, dval)" by (cases kv)
  show ?case
  proof (cases "k = key")
    case True
    with Cons.prems kv have d: "d = dval" and notin: "k \<notin> fst ` set pg"
      by (auto simp: rev_image_eqI)
    from Cons.prems(1) kv True obtain acc' where
      c: "combine pg acc' = Returns merged" and
      v: "map_of acc' k =
           (case map_of acc k of
              Some (JArray xs) \<Rightarrow> (case d of JArray ys \<Rightarrow> Some (JArray (xs @ ys)) | _ \<Rightarrow> None)
            | _ \<Rightarrow> Some d)"
      unfolding d
      by (auto simp: update_conv' combine_append split: option.splits json.splits)
    from combine_other_keys [OF c notin] v show ?thesis by simp
  next
    case False
    with Cons.prems kv have mem: "(k, d) \<in> set pg" and dist: "distinct (map fst pg)" by auto
    from Cons.prems(1) kv False obtain acc' where
      c: "combine pg acc' = Returns merged" and v: "map_of acc' k = map_of acc k"
      by (auto simp: update_conv' split: option.splits json.splits)
    from Cons.IH [OF c dist mem] v show ?thesis by simp
  qed
qed

lemma Send_two_pages:
  "fst (Send golib ''GET'' (Single ''items'') [] NilBody [] connected
          (script [page [(''items'', JArray [JNumber 1, JNumber 2]), (''resume'', JString ''abc'')],
                   page [(''items'', JArray [JNumber 3]), (''total'', JNumber 3)]]))
   = Returns (Some [(''items'', JArray [JNumber 1, JNumber 2, JNumber 3])], None)"
  by code_simp

text \<open>
  \<^verbatim>\<open>jsonTemp\<close> keeps the members of the pages before: a key that a later page does not
  have is combined once more, and its array comes out with the elements repeated.
\<close>

lemma Send_merges_stale_key:
  "fst (Send golib ''GET'' (Single ''items'') [] NilBody [] connected
          (script [page [(''items'', JArray [JNumber 1]), (''resume'', JString ''abc'')],
                   page [(''other'', JArray [JNumber 2])]]))
   = Returns (Some [(''items'', JArray [JNumber 1, JNumber 1]),
                    (''other'', JArray [JNumber 2])], None)"
  by code_simp

text \<open>
  C2 has the value of the page replace the accumulated value in every type clash other than
  two arrays. The code does otherwise when the accumulated value is the array: the
  accumulated value of \<^verbatim>\<open>items\<close> is an array and the second page has a string under that
  key, and the type assertion of the append branch panics.
\<close>

theorem Send_array_clash_panics:
  "fst (Send golib ''GET'' (Single ''items'') [] NilBody [] connected
          (script [page [(''items'', JArray [JNumber 1]), (''resume'', JString ''abc'')],
                   page [(''items'', JString ''x'')]]))
   = Panics"
  by code_simp

section \<open>The errors envelope\<close>

text \<open>
  The accumulated result never has a key \<^verbatim>\<open>errors\<close>, so the check for it never fires:
  no call of \<^verbatim>\<open>Send\<close> returns the error written for it.
\<close>

lemma Send_page_no_errors:
  assumes "Send_page b st = Returns (Inr st')" and "map_of (jsonBody st) ''errors'' = None"
  shows "map_of (jsonBody st') ''errors'' = None"
proof -
  from assms(1) obtain decoded merged where
    m: "combine (AList.delete ''total'' (AList.delete ''resume'' (AList.delete ''errors'' decoded)))
          (jsonBody st) = Returns merged"
    and st': "jsonBody st' = merged"
    unfolding Send_page_def
    by (auto simp: Let_def split: option.splits run.splits prod.splits)
  have "''errors'' \<notin> fst ` set (AList.delete ''total'' (AList.delete ''resume''
          (AList.delete ''errors'' decoded)))"
    using delete_notin_dom [of "''errors''" decoded]
      dom_delete_subset [of "''resume''" "AList.delete ''errors'' decoded"]
      dom_delete_subset [of "''total''" "AList.delete ''resume'' (AList.delete ''errors'' decoded)"]
    by blast
  from combine_other_keys [OF m this] assms(2) st' show ?thesis by simp
qed

lemma Send_page_not_errors:
  "map_of (jsonBody st) ''errors'' = None \<Longrightarrow> Send_page b st \<noteq> Returns (Inl (SendErrorsInJSON e))"
  unfolding Send_page_def
  by (auto simp: Let_def split: option.splits run.splits prod.splits)

lemma Send_loop_never_reports_errors:
  "map_of (jsonBody st) ''errors'' = None \<Longrightarrow>
   fst (Send_loop P meth pth body headers st ctx n) \<noteq> Returns (x, Some (SendErrorsInJSON e))"
proof (induction "length (pending n)" arbitrary: st ctx n rule: less_induct)
  case less
  obtain r ctx1 n1 where raw: "SendRaw P meth pth (continuation st) body headers ctx n = (r, ctx1, n1)"
    by (cases "SendRaw P meth pth (continuation st) body headers ctx n") auto
  show ?case
  proof (cases "resume st \<and> count st < maxCount")
    case False
    then show ?thesis by (simp add: Send_loop_exit)
  next
    case True
    then have go: "resume st" "count st < maxCount" by simp_all
    show ?thesis
    proof (cases r)
      case Panics
      with go raw show ?thesis by (simp add: Send_loop_panic)
    next
      case (Returns v)
      show ?thesis
      proof (cases v)
        case (Inl err)
        with go raw Returns show ?thesis by (simp add: Send_loop_error)
      next
        case (Inr resp)
        note raw' = raw [unfolded Returns Inr]
        note step = Send_loop_response [OF go raw']
        from SendRaw_pending [OF raw'] have dec: "length (pending n1) < length (pending n)" .
        obtain r2 ctx2 n2
          where rc: "Reconnect P (ctx1\<lparr>reauthCount := reauthCount ctx1 + 1\<rparr>) n1 = (r2, ctx2, n2)"
          by (cases "Reconnect P (ctx1\<lparr>reauthCount := reauthCount ctx1 + 1\<rparr>) n1") auto
        from Reconnect_pending [OF rc] dec have "length (pending n2) < length (pending n)" by simp
        from less(1) [OF this, of "start (continuation st)" ctx2]
        have retry: "fst (Send_loop P meth pth body headers (start (continuation st)) ctx2 n2)
                 \<noteq> Returns (x, Some (SendErrorsInJSON e))"
          by (simp add: start_def)
        have inv: "map_of (jsonBody (st\<lparr>query := continuation st\<rparr>)) ''errors'' = None"
          using less.prems by simp
        have next_page: "fst (Send_loop P meth pth body headers (st'\<lparr>count := count st' + 1\<rparr>) ctx1 n1)
                 \<noteq> Returns (x, Some (SendErrorsInJSON e))"
          if "Send_page (Body resp) (st\<lparr>query := continuation st\<rparr>) = Returns (Inr st')" for st'
          using less(1) [OF dec, of "st'\<lparr>count := count st' + 1\<rparr>" ctx1]
            Send_page_no_errors [OF that inv] by simp
        show ?thesis
          unfolding step using next_page retry Send_page_not_errors [OF inv, of "Body resp" e]
          by (auto simp: rc split: run.splits sum.splits)
      qed
    qed
  qed
qed

lemma Send_never_reports_errors:
  "fst (Send P meth pth q body headers ctx n) \<noteq> Returns (x, Some (SendErrorsInJSON e))"
  unfolding Send_def by (rule Send_loop_never_reports_errors) (simp add: start_def)

text \<open>
  C6 has \<^verbatim>\<open>Send\<close> fail whenever a 2xx page has an \<^verbatim>\<open>errors\<close> member. The code does
  otherwise: the member is dropped with the envelope fields and \<^verbatim>\<open>Send\<close> returns the
  rest of the page, here an empty map, with a nil error.
\<close>

theorem Send_returns_page_with_errors:
  "fst (Send golib ''GET'' (Single ''items'') [] NilBody [] connected
          (script [page [(''errors'', JArray [JObject [(''code'', JString ''AEC_FORBIDDEN''),
                                                        (''message'', JString ''denied'')]])]]))
   = Returns (Some [], None)"
  by code_simp

end
